theory Spec2Isabelle
  imports Complex_Main
begin

text \<open>
  A shallow embedding of \<^verbatim>\<open>app.py\<close>, the Volunteer Hub script: the record loader,
  the query-parameter helpers, the page arithmetic, and the two views the script renders
  on each run. A Python \<^verbatim>\<open>str\<close> is a HOL \<open>string\<close>, one \<open>char\<close> per code point
  (HOL's \<open>char\<close> covers the code points below 256), so \<open>length\<close> and \<open>take\<close> count
  what \<^verbatim>\<open>len\<close> and slicing count. Python's \<^verbatim>\<open>int\<close> is HOL's \<open>int\<close>.
\<close>

section \<open>Pagination\<close>

text \<open>
  \<^verbatim>\<open>PAGE_SIZE = 9\<close>, \<^verbatim>\<open>total = len(ops)\<close>,
  \<^verbatim>\<open>total_pages = max(1, math.ceil(total / PAGE_SIZE))\<close>.
  The quotient is the exact one. The floating-point quotient by 9 has the same ceiling
  as long as the list has at most \<open>9 * 2^50\<close> records, more than a machine holds.
\<close>

definition PAGE_SIZE :: int where
  "PAGE_SIZE = 9"

definition total_pages :: "nat \<Rightarrow> int" where
  "total_pages n = max 1 \<lceil>real n / real_of_int PAGE_SIZE\<rceil>"

text \<open>\<^verbatim>\<open>current_page = max(1, min(total_pages, current_page))\<close>\<close>

definition clamp_page :: "int \<Rightarrow> int \<Rightarrow> int" where
  "clamp_page tp p = max 1 (min tp p)"

text \<open>
  Python's \<^verbatim>\<open>xs[lo:hi]\<close> for integer bounds: a negative bound counts from
  the end, and both bounds are cut to the list.
\<close>

definition slice_index :: "nat \<Rightarrow> int \<Rightarrow> nat" where
  "slice_index n i = (if i < 0 then nat (max 0 (i + int n)) else min (nat i) n)"

definition py_slice :: "'a list \<Rightarrow> int \<Rightarrow> int \<Rightarrow> 'a list" where
  "py_slice xs lo hi =
     (let a = slice_index (length xs) lo; b = slice_index (length xs) hi
      in take (b - a) (drop a xs))"

text \<open>
  \<^verbatim>\<open>start = (current_page - 1) * PAGE_SIZE\<close>,
  \<^verbatim>\<open>page_items = ops[start:start+PAGE_SIZE]\<close>.
\<close>

definition page_items :: "'a list \<Rightarrow> int \<Rightarrow> 'a list" where
  "page_items ops current_page =
     (let start = (current_page - 1) * PAGE_SIZE
      in py_slice ops start (start + PAGE_SIZE))"

section \<open>Library functions the script calls\<close>

datatype error = KeyError string | ValueError

text \<open>
  \<^verbatim>\<open>str.replace(old, new)\<close> for a pattern of one character, and
  \<^verbatim>\<open>html.escape(s)\<close> (with its default \<^verbatim>\<open>quote=True\<close>), which the standard library
  writes as five replacements in this order, the ampersand first.
\<close>

definition replace_char :: "char \<Rightarrow> string \<Rightarrow> string \<Rightarrow> string" where
  "replace_char old new s = concat (map (\<lambda>c. if c = old then new else [c]) s)"

definition html_escape :: "string \<Rightarrow> string" where
  "html_escape s =
     (let s1 = replace_char CHR ''&'' ''&amp;'' s;
          s2 = replace_char CHR ''<'' ''&lt;'' s1;
          s3 = replace_char CHR ''>'' ''&gt;'' s2;
          s4 = replace_char CHR 0x22 ''&quot;'' s3;
          s5 = replace_char CHR 0x27 ''&#x27;'' s4
      in s5)"

text \<open>\<^verbatim>\<open>str(i)\<close> of an integer, which is also how an f-string formats it.\<close>

definition digit_char :: "nat \<Rightarrow> char" where
  "digit_char d = char_of (48 + d)"

fun dec :: "nat \<Rightarrow> string" where
  "dec n = (if n < 10 then [digit_char n] else dec (n div 10) @ [digit_char (n mod 10)])"

declare dec.simps [simp del]

definition py_str :: "int \<Rightarrow> string" where
  "py_str i = (if i < 0 then CHR ''-'' # dec (nat (- i)) else dec (nat i))"

text \<open>
  \<^verbatim>\<open>int(s)\<close> of a string, base 10: white space on both sides, one optional sign,
  then decimal digits, where single underscores may stand between digits. Anything else
  is a \<^verbatim>\<open>ValueError\<close>, and so is a literal of more than 4300 digits (the interpreter's
  default limit on the conversion). Among the code points below 256 the white space
  \<^verbatim>\<open>int\<close> strips is TAB to CR, the space, U+0085 and U+00A0, and the only digits are
  \<^verbatim>\<open>0\<close> to \<^verbatim>\<open>9\<close>.
\<close>

definition is_space :: "char \<Rightarrow> bool" where
  "is_space c = ((of_char c :: nat) \<in> set [9, 10, 11, 12, 13, 32, 133, 160])"

definition is_digit :: "char \<Rightarrow> bool" where
  "is_digit c = (48 \<le> (of_char c :: nat) \<and> (of_char c :: nat) \<le> 57)"

definition digit_val :: "char \<Rightarrow> nat" where
  "digit_val c = of_char c - 48"

definition is_digit_or_underscore :: "char \<Rightarrow> bool" where
  "is_digit_or_underscore c = (is_digit c \<or> c = CHR ''_'')"

fun adjacent_underscores :: "string \<Rightarrow> bool" where
  "adjacent_underscores (a # b # cs) =
     ((a = CHR ''_'' \<and> b = CHR ''_'') \<or> adjacent_underscores (b # cs))"
| "adjacent_underscores _ = False"

definition int_max_str_digits :: nat where
  "int_max_str_digits = 4300"

definition strip_sign :: "string \<Rightarrow> bool \<times> string" where
  "strip_sign s =
     (case s of
        [] \<Rightarrow> (False, [])
      | c # r \<Rightarrow>
          if c = CHR ''-'' then (True, r) else if c = CHR ''+'' then (False, r) else (False, s))"

definition py_int :: "string \<Rightarrow> error + int" where
  "py_int s =
     (let (neg, s2) = strip_sign (dropWhile is_space s);
          body = takeWhile is_digit_or_underscore s2;
          rest = dropWhile is_digit_or_underscore s2;
          ds = filter is_digit body
      in if body = [] then Inl ValueError
         else if hd body = CHR ''_'' then Inl ValueError
         else if last body = CHR ''_'' then Inl ValueError
         else if adjacent_underscores body then Inl ValueError
         else if filter (\<lambda>c. \<not> is_space c) rest \<noteq> [] then Inl ValueError
         else if int_max_str_digits < length ds then Inl ValueError
         else let v = int (foldl (\<lambda>a c. 10 * a + digit_val c) 0 ds)
              in Inr (if neg then - v else v))"

section \<open>Records and the loader\<close>

text \<open>
  The dataclass \<^verbatim>\<open>Opportunity\<close>. Python does not check the annotations of a dataclass: a
  field holds whatever value the constructor is given. So the record is written over the
  type \<open>'s\<close> of the values of its six text fields and the type \<open>'l\<close> of the value of
  \<^verbatim>\<open>requirements\<close>, and \<open>Opportunity\<close> is the record at the types the class declares,
  \<^verbatim>\<open>str\<close> and a \<^verbatim>\<open>list\<close> of strings, which is what the views work with. The field
  \<^verbatim>\<open>id\<close> is \<open>id'\<close> here (\<open>id\<close> is HOL's identity function).
\<close>

record ('s, 'l) Opportunity_fields =
  id' :: 's
  title :: 's
  description :: 's
  organization_url :: 's
  location :: 's
  timeframe :: 's
  requirements :: 'l

type_synonym Opportunity = "(string, string list) Opportunity_fields"

text \<open>
  One object of the data file, as the dict \<^verbatim>\<open>json.load\<close> gives, at the seven keys the
  script reads: a key is absent (\<open>None\<close>) or holds a value. The other keys of an object
  are never read. The values are of the types \<open>'s\<close> and \<open>'l\<close> again: in a
  \<open>json_object\<close>, an object of a data file that keeps to the declared types, they are
  strings and lists of strings, and \<open>json\<close> is a type for the values of any JSON
  document.
\<close>

record ('s, 'l) json_dict =
  j_id :: "'s option"
  j_title :: "'s option"
  j_description :: "'s option"
  j_organization_url :: "'s option"
  j_location :: "'s option"
  j_timeframe :: "'s option"
  j_requirements :: "'l option"

type_synonym json_object = "(string, string list) json_dict"

datatype json =
    JNull
  | JBool bool
  | JInt int
  | JReal real
  | JString string
  | JArray "json list"
  | JObject "(string \<times> json) list"

text \<open>
  \<^verbatim>\<open>d[k]\<close> raises \<^verbatim>\<open>KeyError(k)\<close> where the key is absent; \<^verbatim>\<open>d.get(k, default)\<close> gives
  the default there. Both give the value of a key that is present, whatever the value is.
\<close>

definition dict_item :: "string \<Rightarrow> 'v option \<Rightarrow> error + 'v" where
  "dict_item k entry = (case entry of None \<Rightarrow> Inl (KeyError k) | Some v \<Rightarrow> Inr v)"

definition dict_get :: "'v option \<Rightarrow> 'v \<Rightarrow> 'v" where
  "dict_get entry dflt = (case entry of None \<Rightarrow> dflt | Some v \<Rightarrow> v)"

text \<open>
  \<^verbatim>\<open>Opportunity.from_dict(d)\<close>. Its two literals, \<^verbatim>\<open>""\<close> and \<^verbatim>\<open>[]\<close>, are values
  like those of the dict, so they are given as \<open>empty_str\<close> and \<open>empty_list\<close>: for
  strings and lists of strings they are \<open>[]\<close> and \<open>[]\<close>, for \<open>json\<close> values
  \<open>JString []\<close> and \<open>JArray []\<close>.
\<close>

definition from_dict ::
  "'s \<Rightarrow> 'l \<Rightarrow> ('s, 'l) json_dict \<Rightarrow> error + ('s, 'l) Opportunity_fields" where
  "from_dict empty_str empty_list d =
     (case dict_item ''id'' (j_id d) of
        Inl e \<Rightarrow> Inl e
      | Inr i \<Rightarrow> Inr \<lparr>
          id' = i,
          title = dict_get (j_title d) empty_str,
          description = dict_get (j_description d) empty_str,
          organization_url = dict_get (j_organization_url d) empty_str,
          location = dict_get (j_location d) empty_str,
          timeframe = dict_get (j_timeframe d) empty_str,
          requirements = dict_get (j_requirements d) empty_list \<rparr>)"

text \<open>
  What a run shows, in order: one element per call of \<^verbatim>\<open>st.title\<close>,
  \<^verbatim>\<open>st.write\<close>, \<^verbatim>\<open>st.error\<close>, \<^verbatim>\<open>st.header\<close>, \<^verbatim>\<open>st.markdown\<close> (with its
  \<^verbatim>\<open>unsafe_allow_html\<close> flag) and \<^verbatim>\<open>st.button\<close>.
\<close>

datatype element =
    St_title string
  | St_write string
  | St_error string
  | St_header string
  | St_markdown string bool
  | St_button string

text \<open>
  \<^verbatim>\<open>[Opportunity.from_dict(r) for r in raw]\<close>: the first record that raises ends the
  comprehension. From here on the data file keeps to the declared types.
\<close>

fun from_dicts :: "json_object list \<Rightarrow> error + Opportunity list" where
  "from_dicts [] = Inr []"
| "from_dicts (r # raw) =
     (case from_dict [] [] r of
        Inl e \<Rightarrow> Inl e
      | Inr opp \<Rightarrow> (case from_dicts raw of Inl e \<Rightarrow> Inl e | Inr opps \<Rightarrow> Inr (opp # opps)))"

text \<open>
  \<^verbatim>\<open>load_opportunities(path)\<close>: the file is \<open>None\<close> when \<^verbatim>\<open>os.path.exists(path)\<close> is
  false, and otherwise the JSON array it holds. The result is the messages shown while
  loading and the records.
\<close>

definition load_opportunities ::
  "string \<Rightarrow> json_object list option \<Rightarrow> error + (element list \<times> Opportunity list)" where
  "load_opportunities path file =
     (case file of
        None \<Rightarrow> Inr ([St_error (''Data file not found: '' @ path)], [])
      | Some raw \<Rightarrow> (case from_dicts raw of Inl e \<Rightarrow> Inl e | Inr opps \<Rightarrow> Inr ([], opps)))"

section \<open>Query parameters\<close>

text \<open>
  \<^verbatim>\<open>st.query_params\<close>: the key/value pairs of the URL's query string, in order.
  \<^verbatim>\<open>get_all(name)\<close> is every value of the key (none when it is absent) and
  \<^verbatim>\<open>get(name)\<close> the last one, or \<^verbatim>\<open>None\<close>.
\<close>

type_synonym query_params = "(string \<times> string) list"

definition get_all :: "query_params \<Rightarrow> string \<Rightarrow> string list" where
  "get_all qp name = map snd (filter (\<lambda>kv. fst kv = name) qp)"

definition get_last :: "query_params \<Rightarrow> string \<Rightarrow> string option" where
  "get_last qp name = (case get_all qp name of [] \<Rightarrow> None | v # vs \<Rightarrow> Some (last (v # vs)))"

text \<open>
  \<^verbatim>\<open>qp_get(name, default)\<close>. \<^verbatim>\<open>get_all\<close> does not raise, so the \<^verbatim>\<open>except\<close> branch
  is not taken; \<^verbatim>\<open>get\<close> gives a string or \<^verbatim>\<open>None\<close>, never a list, so what is left of
  the tail is \<^verbatim>\<open>return v or default\<close>, where an empty string counts as false.
\<close>

definition qp_get :: "query_params \<Rightarrow> string \<Rightarrow> string option \<Rightarrow> string option" where
  "qp_get qp name dflt =
     (let vals = get_all qp name
      in if vals \<noteq> [] then Some (hd vals)
         else (case get_last qp name of
                 None \<Rightarrow> dflt
               | Some v \<Rightarrow> if v \<noteq> [] then Some v else dflt))"

text \<open>
  \<^verbatim>\<open>try: current_page = int(page_param) if page_param is not None else 1\<close>,
  \<^verbatim>\<open>except Exception: current_page = 1\<close>: the attempt, and what the handler makes of it.
\<close>

definition parse_page :: "string option \<Rightarrow> error + int" where
  "parse_page page_param = (case page_param of None \<Rightarrow> Inr 1 | Some s \<Rightarrow> py_int s)"

definition requested_page :: "string option \<Rightarrow> int" where
  "requested_page page_param = (case parse_page page_param of Inl e \<Rightarrow> 1 | Inr n \<Rightarrow> n)"

definition current_page :: "nat \<Rightarrow> query_params \<Rightarrow> int" where
  "current_page n qp = clamp_page (total_pages n) (requested_page (qp_get qp ''page'' None))"

section \<open>The two views\<close>

text \<open>
  Two characters of the script's literals lie above U+00FF: the bullet U+2022 between
  location and time frame, and the dash U+2014 of the introduction. They stand here as
  their UTF-8 bytes.
\<close>

definition bullet :: string where
  "bullet = [CHR 0xE2, CHR 0x80, CHR 0xA2]"

definition em_dash :: string where
  "em_dash = [CHR 0xE2, CHR 0x80, CHR 0x94]"

text \<open>The style sheet, a literal of the script: a newline, fourteen lines, four spaces.\<close>

definition css_lines :: "string list" where
  "css_lines =
    [''<style>'',
     ''a {'',
     ''color: inherit !important;'',
     ''text-decoration: none !important;'',
     ''}'',
     ''.vol-grid{display:grid;grid-template-columns:repeat(3,1fr);gap:20px;padding:0;margin:0}'',
     ''.vol-card{border:1px solid #e0e0e0;border-radius:10px;padding:16px;min-height:140px;display:flex;flex-direction:column;justify-content:space-between;text-decoration:none;color:inherit;background-color:var(--bg-color)}'',
     ''.vol-card h3{margin:0 0 8px 0;font-size:1.05rem}'',
     ''.vol-card p{margin:0 0 12px 0;color:var(--secondary-text-color)}'',
     ''.vol-meta{font-size:0.85rem;color:var(--secondary-text-color)}'',
     ''.pagination{display:flex;justify-content:center;gap:8px;margin-top:18px}'',
     ''.page-num{padding:6px 10px;border-radius:6px;border:1px solid #cfcfcf;text-decoration:none;color:inherit}'',
     ''.page-num.active{background:#0d6efd;color:white;border-color:#0d6efd}'',
     ''</style>'']"

definition css :: string where
  "css = CHR 0x0A # concat (map (\<lambda>l. ''    '' @ l @ [CHR 0x0A]) css_lines) @ ''    ''"

text \<open>
  \<^verbatim>\<open>short_desc = html.escape(op.description[:120]) + ("..." if len(op.description)>120 else "")\<close>
\<close>

definition short_desc :: "string \<Rightarrow> string" where
  "short_desc d = html_escape (py_slice d 0 120) @ (if 120 < length d then ''...'' else [])"

text \<open>The f-string appended to \<^verbatim>\<open>cards\<close> for one record of the page.\<close>

definition card :: "int \<Rightarrow> Opportunity \<Rightarrow> string" where
  "card page opp =
     ''<a class='vol-card' href='?id='' @ id' opp @ ''&page='' @ py_str page @ '''>''
     @ ''<h3>'' @ html_escape (title opp) @ ''</h3>''
     @ ''<p>'' @ short_desc (description opp) @ ''</p>''
     @ ''<div class='vol-meta'>'' @ html_escape (location opp) @ '' '' @ bullet @ '' ''
         @ html_escape (timeframe opp) @ ''</div>''
     @ ''</a>''"

text \<open>\<^verbatim>\<open>''.join(cards)\<close>: the style sheet, the grid's opening tag, the cards, the closing tag.\<close>

definition grid_markup :: "Opportunity list \<Rightarrow> int \<Rightarrow> string" where
  "grid_markup items page =
     concat ([css, ''<div class='vol-grid'>''] @ map (card page) items @ [''</div>''])"

text \<open>The pagination footer: one anchor for each page from 1 to \<^verbatim>\<open>total_pages\<close>.\<close>

definition page_link :: "int \<Rightarrow> int \<Rightarrow> string" where
  "page_link page p =
     (let cls = (if p = page then ''page-num active'' else ''page-num'')
      in ''<a class='' @ [CHR 0x27] @ cls @ ''' href='?page='' @ py_str p @ '''>'' @ py_str p
         @ ''</a>'')"

definition footer_markup :: "int \<Rightarrow> int \<Rightarrow> string" where
  "footer_markup tp page =
     concat ([''<div class='pagination'>''] @ map (page_link page) [1..tp] @ [''</div>''])"

text \<open>
  One run of the script: what it shows, the query parameters it leaves, and whether it
  ended in \<^verbatim>\<open>st.rerun()\<close>.
\<close>

record run =
  elements :: "element list"
  params :: query_params
  rerun :: bool

text \<open>
  \<^verbatim>\<open>if st.button("Back to list")\<close>: the button is shown, and in the run that follows a
  click on it the parameters are cleared, \<^verbatim>\<open>page\<close> is set to \<^verbatim>\<open>str(current_page)\<close>
  and the script is run again.
\<close>

definition back_button :: "element list \<Rightarrow> int \<Rightarrow> query_params \<Rightarrow> bool \<Rightarrow> run" where
  "back_button shown page qp clicked =
     \<lparr> elements = shown @ [St_button ''Back to list''],
       params = (if clicked then [(''page'', py_str page)] else qp),
       rerun = clicked \<rparr>"

text \<open>
  The detail view. \<^verbatim>\<open>next((o for o in ops if o.id == selected_id), None)\<close> is the first
  record with that id.
\<close>

definition detail_view ::
  "Opportunity list \<Rightarrow> string \<Rightarrow> int \<Rightarrow> query_params \<Rightarrow> bool \<Rightarrow> run" where
  "detail_view ops selected_id page qp clicked =
     (case find (\<lambda>x. id' x = selected_id) ops of
        None \<Rightarrow> back_button [St_error ''Opportunity not found.''] page qp clicked
      | Some opp \<Rightarrow>
          back_button
            ([St_header (title opp),
              St_markdown (description opp) False,
              St_markdown (''**Organization:** ['' @ organization_url opp @ '']('' @
                 organization_url opp @ '')'') False,
              St_write (''**Location:** '' @ location opp),
              St_write (''**Timeframe:** '' @ timeframe opp),
              St_write ''**Requirements:**'']
             @ map (\<lambda>req. St_write (''- '' @ req)) (requirements opp))
            page qp clicked)"

text \<open>The grid view: the cards of the current page and the footer.\<close>

definition grid_view :: "Opportunity list \<Rightarrow> int \<Rightarrow> query_params \<Rightarrow> run" where
  "grid_view ops page qp =
     \<lparr> elements =
         [St_markdown (grid_markup (page_items ops page) page) True,
          St_markdown (footer_markup (total_pages (length ops)) page) True],
       params = qp,
       rerun = False \<rparr>"

text \<open>
  The script after the records are loaded. \<^verbatim>\<open>if selected_id:\<close> holds for a string
  that is not empty. \<open>clicked\<close> says whether this run follows a click on the button
  of the view shown before.
\<close>

definition script :: "Opportunity list \<Rightarrow> query_params \<Rightarrow> bool \<Rightarrow> run" where
  "script ops qp clicked =
     (let selected_id = qp_get qp ''id'' None;
          page = current_page (length ops) qp;
          r = (case selected_id of
                 None \<Rightarrow> grid_view ops page qp
               | Some sid \<Rightarrow>
                   if sid \<noteq> [] then detail_view ops sid page qp clicked
                   else grid_view ops page qp)
      in r\<lparr> elements :=
             [St_title ''Volunteer Hub'',
              St_write (''Find volunteering opportunities '' @ em_dash @
                 '' click a card to view details.'')]
             @ elements r \<rparr>)"

text \<open>
  The whole script: the records are loaded at the top of every run, and an exception of
  the loader ends the run.
\<close>

definition app :: "string \<Rightarrow> json_object list option \<Rightarrow> query_params \<Rightarrow> bool \<Rightarrow> error + run" where
  "app path file qp clicked =
     (case load_opportunities path file of
        Inl e \<Rightarrow> Inl e
      | Inr (messages, ops) \<Rightarrow>
          (let r = script ops qp clicked in Inr (r\<lparr> elements := messages @ elements r \<rparr>)))"


section \<open>What escaped text displays\<close>

text \<open>
  Not part of the script: the reading of its output that the specification's
  \<open>displays literally\<close> refers to. A browser shows each of the five character references
  that \<^verbatim>\<open>html.escape\<close> writes as the character it stands for, and every other
  character as it is.
\<close>

function spec_display :: "string \<Rightarrow> string" where
  "spec_display [] = []"
| "spec_display (c # cs) =
     (if c = CHR ''&'' \<and> take 4 cs = ''amp;'' then CHR ''&'' # spec_display (drop 4 cs)
      else if c = CHR ''&'' \<and> take 3 cs = ''lt;'' then CHR ''<'' # spec_display (drop 3 cs)
      else if c = CHR ''&'' \<and> take 3 cs = ''gt;'' then CHR ''>'' # spec_display (drop 3 cs)
      else if c = CHR ''&'' \<and> take 5 cs = ''quot;'' then CHR 0x22 # spec_display (drop 5 cs)
      else if c = CHR ''&'' \<and> take 5 cs = ''#x27;'' then CHR 0x27 # spec_display (drop 5 cs)
      else c # spec_display cs)"
  by pat_completeness auto
termination
  by (relation "measure length") auto

section \<open>Following the link of a card\<close>




text \<open>\<^verbatim>\<open>s.split(sep)\<close> for a separator of one character.\<close>

fun split_on :: "char \<Rightarrow> string \<Rightarrow> string list" where
  "split_on sep [] = [[]]"
| "split_on sep (c # cs) =
     (if c = sep then [] # split_on sep cs
      else (case split_on sep cs of [] \<Rightarrow> [[c]] | p # ps \<Rightarrow> (c # p) # ps))"




section \<open>The page arithmetic\<close>

lemma page_count_bounds:
  "9 * ((int n + 8) div 9) - 9 < int n \<and> int n \<le> 9 * ((int n + 8) div 9)"
proof -
  let ?m = "(int n + 8) div 9"
  have "9 * ?m + (int n + 8) mod 9 = int n + 8"
    by (rule mult_div_mod_eq)
  moreover have "0 \<le> (int n + 8) mod 9" and "(int n + 8) mod 9 < 9"
    by simp_all
  ultimately show ?thesis
    by linarith
qed

lemma total_pages_div: "total_pages n = max 1 ((int n + 8) div 9)"
proof -
  let ?m = "(int n + 8) div 9"
  from page_count_bounds [of n]
  have "real_of_int (9 * ?m - 9) < real_of_int (int n)" and "real_of_int (int n) \<le> real_of_int (9 * ?m)"
    by (simp_all only: of_int_less_iff of_int_le_iff)
  then have "real_of_int ?m - 1 < real n / 9" and "real n / 9 \<le> real_of_int ?m"
    by simp_all
  then have "\<lceil>real n / 9\<rceil> = ?m"
    by (intro ceiling_unique)
  then show ?thesis
    by (simp add: total_pages_def PAGE_SIZE_def)
qed

lemma total_pages_ge1: "1 \<le> total_pages n"
  by (simp add: total_pages_def)

lemma total_pages_covers: "int n \<le> 9 * total_pages n"
  using page_count_bounds [of n] unfolding total_pages_div by linarith

lemma total_pages_least: "0 < n \<Longrightarrow> 9 * (total_pages n - 1) < int n"
  using page_count_bounds [of n] unfolding total_pages_div
  by (cases "1 \<le> (int n + 8) div 9") (simp_all add: max_def)

lemma py_slice_nonneg:
  assumes "0 \<le> lo" "0 \<le> len"
  shows "py_slice xs lo (lo + len) = take (nat len) (drop (nat lo) xs)"
proof (cases "nat lo \<le> length xs")
  case True
  with assms have a: "slice_index (length xs) lo = nat lo"
    by (simp add: slice_index_def)
  from assms have b: "slice_index (length xs) (lo + len) = min (nat lo + nat len) (length xs)"
    by (simp add: slice_index_def nat_add_distrib)
  have "min (nat lo + nat len) (length xs) - nat lo = min (nat len) (length xs - nat lo)"
    using True by arith
  then have "take (min (nat lo + nat len) (length xs) - nat lo) (drop (nat lo) xs)
      = take (min (nat len) (length (drop (nat lo) xs))) (drop (nat lo) xs)"
    by simp
  also have "\<dots> = take (nat len) (drop (nat lo) xs)"
    by (simp add: min_def)
  finally show ?thesis
    by (simp add: py_slice_def a b)
next
  case False
  with assms show ?thesis
    by (simp add: py_slice_def slice_index_def)
qed

lemma page_items_take_drop:
  "1 \<le> p \<Longrightarrow> page_items ops p = take 9 (drop (9 * nat (p - 1)) ops)"
proof -
  assume p: "1 \<le> p"
  then have "nat ((p - 1) * 9) = 9 * nat (p - 1)"
    by (simp add: nat_mult_distrib)
  with p py_slice_nonneg [of "(p - 1) * 9" 9 ops] show ?thesis
    by (simp add: page_items_def PAGE_SIZE_def)
qed

lemma concat_chunks:
  "concat (map (\<lambda>i. take 9 (drop (9 * i) xs)) [0..<k]) = take (9 * k) xs"
proof (induction k)
  case 0
  show ?case by simp
next
  case (Suc k)
  have "take (9 * Suc k) xs = take (9 * k + 9) xs" by (simp add: add.commute)
  also have "\<dots> = take (9 * k) xs @ take 9 (drop (9 * k) xs)"
    by (rule take_add)
  finally show ?case using Suc.IH by simp
qed

lemma upto_as_upt: "[1..int k] = map (\<lambda>i. int i + 1) [0..<k]"
proof (induction k)
  case 0
  show ?case by simp
next
  case (Suc k)
  have "[1..int (Suc k)] = [1..int k] @ [int k + 1]"
    using upto_rec2 [of 1 "int k + 1"] by (simp add: add.commute)
  with Suc.IH show ?case by simp
qed

lemma concat_pages_upto:
  "concat (map (page_items ops) [1..int k]) = take (9 * k) ops"
proof -
  have "map (page_items ops) [1..int k] = map (\<lambda>i. take 9 (drop (9 * i) ops)) [0..<k]"
    by (simp add: upto_as_upt page_items_take_drop)
  then show ?thesis by (simp add: concat_chunks)
qed

lemma concat_all_pages:
  "concat (map (page_items ops) [1..total_pages (length ops)]) = ops"
proof -
  define k where "k = nat (total_pages (length ops))"
  have k: "total_pages (length ops) = int k"
    using total_pages_ge1 [of "length ops"] by (simp add: k_def)
  have "length ops \<le> 9 * k"
    using total_pages_covers [of "length ops"] by (simp add: k)
  then show ?thesis
    by (simp add: k concat_pages_upto)
qed

lemma last_page_length:
  "length (page_items ops (total_pages (length ops))) =
     (if length ops = 0 then 0 else if length ops mod 9 = 0 then 9 else length ops mod 9)"
proof (cases "length ops = 0")
  case True
  then show ?thesis
    by (simp add: page_items_take_drop total_pages_ge1)
next
  case False
  let ?n = "length ops"
  define k where "k = nat (total_pages ?n - 1)"
  have k: "int k = total_pages ?n - 1"
    using total_pages_ge1 [of ?n] by (simp add: k_def)
  have "9 * int k < int ?n"
    using total_pages_least [of ?n] False k by simp
  then have lo: "9 * k < ?n"
    by linarith
  have "int ?n \<le> 9 * int k + 9"
    using total_pages_covers [of ?n] k by simp
  then have hi: "?n \<le> 9 * k + 9"
    by linarith
  define d where "d = ?n - 9 * k"
  have d: "?n = 9 * k + d" "1 \<le> d" "d \<le> 9"
    using lo hi by (simp_all add: d_def)
  have len: "length (page_items ops (total_pages ?n)) = d"
    using d by (simp add: page_items_take_drop total_pages_ge1 k_def [symmetric] d_def)
  have m: "?n mod 9 = d mod 9"
    by (simp add: d(1))
  show ?thesis
  proof (cases "d = 9")
    case True
    with m len False show ?thesis by simp
  next
    case False
    with d have "d mod 9 = d" by simp
    with m len d \<open>length ops \<noteq> 0\<close> show ?thesis by simp
  qed
qed

lemma clamp_page_range: "1 \<le> tp \<Longrightarrow> 1 \<le> clamp_page tp p \<and> clamp_page tp p \<le> tp"
  by (simp add: clamp_page_def)

text \<open>
  C1. For every record list and every clamped page, the page's items are the slice
  \<open>records[(page - 1) * 9 : page * 9]\<close>; the pages 1 to \<open>total_pages\<close>, one after the
  other, give back the record list, every record once and in order; and the last page holds
  \<open>n mod 9\<close> records, 9 when 9 divides a positive \<open>n\<close>, and none only when there are no
  records.
\<close>

theorem page_items_partition:
  "(let tp = total_pages (length ops); cp = clamp_page tp p
    in page_items ops cp = py_slice ops ((cp - 1) * 9) (cp * 9)
       \<and> page_items ops cp = take 9 (drop (9 * nat (cp - 1)) ops)
       \<and> concat (map (page_items ops) [1..tp]) = ops
       \<and> length (page_items ops tp) =
           (if length ops = 0 then 0 else if length ops mod 9 = 0 then 9 else length ops mod 9))"
proof -
  let ?tp = "total_pages (length ops)"
  let ?cp = "clamp_page ?tp p"
  have cp: "1 \<le> ?cp"
    by (simp add: clamp_page_def)
  have e: "(?cp - 1) * 9 + 9 = ?cp * 9"
    by (simp add: algebra_simps)
  have "page_items ops ?cp = py_slice ops ((?cp - 1) * 9) ((?cp - 1) * 9 + 9)"
    by (simp only: page_items_def PAGE_SIZE_def Let_def)
  then have "page_items ops ?cp = py_slice ops ((?cp - 1) * 9) (?cp * 9)"
    by (simp only: e)
  moreover have "page_items ops ?cp = take 9 (drop (9 * nat (?cp - 1)) ops)"
    using cp by (rule page_items_take_drop)
  ultimately show ?thesis
    using concat_all_pages [of ops] last_page_length [of ops]
    by (simp only: Let_def simp_thms)
qed

theorem page_items_partition_witness:
  "page_items ''abcdefghijk'' 2 = py_slice ''abcdefghijk'' 9 18
   \<and> page_items ''abcdefghijk'' 2 = ''jk''
   \<and> concat (map (page_items ''abcdefghijk'') [1..2]) = ''abcdefghijk''
   \<and> length (page_items ''abcdefghijk'' 2) = 2"
proof -
  have tp: "total_pages (length ''abcdefghijk'') = 2"
    by (simp add: total_pages_div)
  have cp: "clamp_page 2 7 = 2"
    by (simp add: clamp_page_def)
  have e1: "py_slice ''abcdefghijk'' ((2 - 1) * 9) (2 * 9) = py_slice ''abcdefghijk'' 9 18"
    by simp
  have e2: "take 9 (drop (9 * nat (2 - 1)) ''abcdefghijk'') = ''jk''"
    by simp
  have e3: "(if length ''abcdefghijk'' = 0 then 0
             else if length ''abcdefghijk'' mod 9 = 0 then 9
                  else length ''abcdefghijk'' mod 9) = 2"
    by simp
  show ?thesis
    by (rule page_items_partition [of "''abcdefghijk''" 7, unfolded Let_def tp cp e1 e2 e3])
qed

text \<open>
  C2. For every record count \<open>n\<close> the page count is \<open>max(1, ceil(n / 9))\<close>, which is
  \<open>max(1, (n + 8) div 9)\<close>: it is at least 1, also when there are no records, the pages
  cover all \<open>n\<close> records, and one page fewer would not.
\<close>

theorem total_pages_is_ceiling:
  "total_pages n = max 1 \<lceil>real n / 9\<rceil>
   \<and> total_pages n = max 1 ((int n + 8) div 9)
   \<and> 1 \<le> total_pages n
   \<and> total_pages 0 = 1
   \<and> int n \<le> 9 * total_pages n
   \<and> (n = 0 \<or> 9 * (total_pages n - 1) < int n)"
proof -
  have "total_pages n = max 1 \<lceil>real n / 9\<rceil>"
    by (simp add: total_pages_def PAGE_SIZE_def)
  moreover have "total_pages 0 = 1"
    by (simp add: total_pages_def)
  moreover have "n = 0 \<or> 9 * (total_pages n - 1) < int n"
    using total_pages_least [of n] by auto
  ultimately show ?thesis
    using total_pages_div [of n] total_pages_ge1 [of n] total_pages_covers [of n]
    by (simp only: simp_thms)
qed

theorem total_pages_is_ceiling_witness:
  "total_pages 10 = 2 \<and> total_pages 9 = 1 \<and> total_pages 0 = 1"
proof -
  from total_pages_is_ceiling [of 10] have "total_pages 10 = 2" by simp
  moreover from total_pages_is_ceiling [of 9] have "total_pages 9 = 1" by simp
  moreover from total_pages_is_ceiling [of 0] have "total_pages 0 = 1" by simp
  ultimately show ?thesis by simp
qed

section \<open>The page parameter\<close>

lemmas py_int_eval =
  py_int_def strip_sign_def is_space_def is_digit_or_underscore_def is_digit_def
  digit_val_def int_max_str_digits_def

lemma qp_get_first:
  "qp_get qp name None = (case get_all qp name of [] \<Rightarrow> None | v # vs \<Rightarrow> Some v)"
  by (cases "get_all qp name") (simp_all add: qp_get_def get_last_def)

lemma current_page_range:
  "1 \<le> current_page n qp \<and> current_page n qp \<le> total_pages n"
  unfolding current_page_def by (rule clamp_page_range) (rule total_pages_ge1)

lemma script_errors:
  assumes "St_error msg \<in> set (elements (script ops qp clicked))"
  shows "msg = ''Opportunity not found.''
         \<and> (\<exists>sid. qp_get qp ''id'' None = Some sid \<and> sid \<noteq> []
                \<and> find (\<lambda>x. id' x = sid) ops = None)"
  using assms
  by (auto simp: script_def Let_def grid_view_def detail_view_def back_button_def
      split: option.splits if_splits)

text \<open>
  C3. Whatever integer the \<open>page\<close> parameter of the URL holds, negative and too large
  ones included, the page the script works with is \<open>max(1, min(total_pages, page))\<close>
  and lies between 1 and \<open>total_pages\<close>. The correction is silent: the only error a
  run ever shows is the not-found message of the detail view, which does not depend on
  the page.
\<close>

theorem current_page_clamped:
  "1 \<le> current_page (length ops) qp
   \<and> current_page (length ops) qp \<le> total_pages (length ops)
   \<and> (\<forall>v p. qp_get qp ''page'' None = Some v \<and> py_int v = Inr p
        \<longrightarrow> current_page (length ops) qp = max 1 (min (total_pages (length ops)) p))
   \<and> (\<forall>msg. St_error msg \<in> set (elements (script ops qp clicked))
        \<longrightarrow> msg = ''Opportunity not found.''
            \<and> (\<exists>sid. qp_get qp ''id'' None = Some sid \<and> sid \<noteq> []
                  \<and> find (\<lambda>x. id' x = sid) ops = None))"
proof -
  have "current_page (length ops) qp = max 1 (min (total_pages (length ops)) p)"
    if "qp_get qp ''page'' None = Some v" and "py_int v = Inr p" for v p
    using that by (simp add: current_page_def clamp_page_def requested_page_def parse_page_def)
  then show ?thesis
    using current_page_range [of "length ops" qp] script_errors [of _ ops qp clicked]
    by blast
qed

theorem current_page_clamped_witness:
  "current_page (length (replicate 30 \<lparr>id' = ''a'', title = ''t'', description = ''d'',
       organization_url = ''u'', location = ''l'', timeframe = ''f'', requirements = []\<rparr>))
     [(''page'', ''99'')] = 4
   \<and> current_page (length (replicate 30 \<lparr>id' = ''a'', title = ''t'', description = ''d'',
       organization_url = ''u'', location = ''l'', timeframe = ''f'', requirements = []\<rparr>))
     [(''page'', ''-3'')] = 1
   \<and> current_page (length (replicate 30 \<lparr>id' = ''a'', title = ''t'', description = ''d'',
       organization_url = ''u'', location = ''l'', timeframe = ''f'', requirements = []\<rparr>))
     [(''page'', ''2'')] = 2"
proof -
  let ?x = "\<lparr>id' = ''a'', title = ''t'', description = ''d'',
      organization_url = ''u'', location = ''l'', timeframe = ''f'', requirements = []\<rparr>"
  have tp: "total_pages (length (replicate 30 ?x)) = 4"
    by (simp add: total_pages_div)
  have g: "qp_get [(''page'', v)] ''page'' None = Some v" for v
    by (simp add: qp_get_def get_all_def)
  have "py_int ''99'' = Inr 99" "py_int ''-3'' = Inr (- 3)" "py_int ''2'' = Inr 2"
    by (simp_all add: py_int_eval)
  with g current_page_clamped [of "replicate 30 ?x" "[(''page'', ''99'')]" False]
    current_page_clamped [of "replicate 30 ?x" "[(''page'', ''-3'')]" False]
    current_page_clamped [of "replicate 30 ?x" "[(''page'', ''2'')]" False]
  show ?thesis
    unfolding tp by simp
qed

text \<open>
  C4. Resolving the \<open>page\<close> parameter always gives an integer: it is the first value
  of the parameter read by \<open>int\<close>, and 1 when the parameter is absent or \<open>int\<close>
  raises.
\<close>

theorem page_param_resolution:
  "qp_get qp ''page'' None = (case get_all qp ''page'' of [] \<Rightarrow> None | v # vs \<Rightarrow> Some v)
   \<and> requested_page (qp_get qp ''page'' None) =
       (case get_all qp ''page'' of
          [] \<Rightarrow> 1
        | v # vs \<Rightarrow> (case py_int v of Inl e \<Rightarrow> 1 | Inr p \<Rightarrow> p))"
  by (cases "get_all qp ''page''")
    (simp_all add: qp_get_first requested_page_def parse_page_def)

theorem page_param_resolution_witness:
  "requested_page (qp_get [(''page'', ''3''), (''id'', ''x''), (''page'', ''7'')] ''page'' None) = 3
   \<and> requested_page (qp_get [(''page'', ''abc'')] ''page'' None) = 1
   \<and> requested_page (qp_get [(''page'', '''')] ''page'' None) = 1
   \<and> requested_page (qp_get [(''id'', ''x'')] ''page'' None) = 1"
proof -
  have p: "py_int ''3'' = Inr 3" "py_int ''abc'' = Inl ValueError" "py_int [] = Inl ValueError"
    by (simp_all add: py_int_eval)
  have a: "requested_page
      (qp_get [(''page'', ''3''), (''id'', ''x''), (''page'', ''7'')] ''page'' None) = 3"
    using page_param_resolution [of "[(''page'', ''3''), (''id'', ''x''), (''page'', ''7'')]",
        THEN conjunct2] p
    by (simp add: get_all_def)
  have b: "requested_page (qp_get [(''page'', ''abc'')] ''page'' None) = 1"
    using page_param_resolution [of "[(''page'', ''abc'')]", THEN conjunct2] p
    by (simp add: get_all_def)
  have c: "requested_page (qp_get [(''page'', '''')] ''page'' None) = 1"
    using page_param_resolution [of "[(''page'', [])]", THEN conjunct2] p
    by (simp add: get_all_def)
  have d: "requested_page (qp_get [(''id'', ''x'')] ''page'' None) = 1"
    using page_param_resolution [of "[(''id'', ''x'')]", THEN conjunct2]
    by (simp add: get_all_def)
  from a b c d show ?thesis
    by (intro conjI)
qed

section \<open>Escaping\<close>

lemma replace_char_append:
  "replace_char old new (xs @ ys) = replace_char old new xs @ replace_char old new ys"
  by (simp add: replace_char_def)

lemma html_escape_append: "html_escape (xs @ ys) = html_escape xs @ html_escape ys"
  by (simp add: html_escape_def Let_def replace_char_append)

lemma html_escape_Nil: "html_escape [] = []"
  by (simp add: html_escape_def replace_char_def)

lemma html_escape_single:
  "html_escape [c] =
     (if c = CHR ''&'' then ''&amp;''
      else if c = CHR ''<'' then ''&lt;''
      else if c = CHR ''>'' then ''&gt;''
      else if c = CHR 0x22 then ''&quot;''
      else if c = CHR 0x27 then ''&#x27;''
      else [c])"
  by (simp add: html_escape_def replace_char_def)

lemma html_escape_Cons: "html_escape (c # s) = html_escape [c] @ html_escape s"
  using html_escape_append [of "[c]" s] by simp

lemma html_escape_no_markup:
  "set (html_escape s) \<inter> {CHR ''<'', CHR ''>'', CHR 0x22, CHR 0x27} = {}"
proof (induction s)
  case Nil
  show ?case by (simp add: html_escape_Nil)
next
  case (Cons c s)
  have "set (html_escape [c]) \<inter> {CHR ''<'', CHR ''>'', CHR 0x22, CHR 0x27} = {}"
    by (simp add: html_escape_single)
  with Cons.IH show ?case
    by (simp add: html_escape_Cons [of c s] Int_Un_distrib2)
qed

lemma spec_display_escaped_char:
  "spec_display (html_escape [c] @ r) = c # spec_display r"
  by (simp add: html_escape_single)

lemma spec_display_escape_append:
  "spec_display (html_escape s @ r) = s @ spec_display r"
proof (induction s)
  case Nil
  show ?case by (simp add: html_escape_Nil)
next
  case (Cons c s)
  have "spec_display (html_escape (c # s) @ r)
      = spec_display (html_escape [c] @ (html_escape s @ r))"
    by (simp add: html_escape_Cons [of c s])
  also have "\<dots> = c # spec_display (html_escape s @ r)"
    by (rule spec_display_escaped_char)
  finally show ?case
    using Cons.IH by simp
qed

lemma spec_display_escape: "spec_display (html_escape s) = s"
  using spec_display_escape_append [of s "[]"] by simp

lemma html_escape_plain:
  "set s \<inter> {CHR ''&'', CHR ''<'', CHR ''>'', CHR 0x22, CHR 0x27} = {} \<Longrightarrow> html_escape s = s"
proof (induction s)
  case Nil
  show ?case by (simp add: html_escape_Nil)
next
  case (Cons c s)
  then have "html_escape [c] = [c]" and "html_escape s = s"
    by (auto simp: html_escape_single)
  then show ?case
    by (simp add: html_escape_Cons [of c s])
qed

lemma slice_prefix: "py_slice d 0 120 = take 120 d"
  using py_slice_nonneg [of 0 120 d] by simp

text \<open>
  C5. The excerpt of a description is its first 120 characters, escaped, followed by
  \<open>...\<close> exactly when the description is longer than 120 characters. What it displays
  is those 120 characters and the marker, or the whole description and no marker; and
  where nothing needs escaping the excerpt is that text itself.
\<close>

theorem short_desc_excerpt:
  "short_desc d = html_escape (take 120 d) @ (if 120 < length d then ''...'' else [])
   \<and> spec_display (short_desc d) = (if 120 < length d then take 120 d @ ''...'' else d)
   \<and> (set d \<inter> {CHR ''&'', CHR ''<'', CHR ''>'', CHR 0x22, CHR 0x27} = {}
        \<longrightarrow> short_desc d = (if 120 < length d then take 120 d @ ''...'' else d))"
proof -
  have a: "short_desc d = html_escape (take 120 d) @ (if 120 < length d then ''...'' else [])"
    by (simp add: short_desc_def slice_prefix)
  have "spec_display ''...'' = ''...''"
    by simp
  then have b: "spec_display (short_desc d) = (if 120 < length d then take 120 d @ ''...'' else d)"
    by (simp add: a spec_display_escape_append spec_display_escape)
  have c: "short_desc d = (if 120 < length d then take 120 d @ ''...'' else d)"
    if "set d \<inter> {CHR ''&'', CHR ''<'', CHR ''>'', CHR 0x22, CHR 0x27} = {}"
  proof -
    from that set_take_subset [of 120 d]
    have "set (take 120 d) \<inter> {CHR ''&'', CHR ''<'', CHR ''>'', CHR 0x22, CHR 0x27} = {}"
      by blast
    then have "html_escape (take 120 d) = take 120 d"
      by (rule html_escape_plain)
    then show ?thesis
      by (simp add: a)
  qed
  from a b c show ?thesis
    by blast
qed

theorem short_desc_excerpt_witness:
  "short_desc (replicate 150 CHR ''a'') = replicate 120 CHR ''a'' @ ''...''
   \<and> short_desc (replicate 50 CHR ''a'') = replicate 50 CHR ''a''
   \<and> short_desc (replicate 120 CHR ''a'') = replicate 120 CHR ''a''"
proof -
  have plain: "set (replicate n CHR ''a'') \<inter> {CHR ''&'', CHR ''<'', CHR ''>'', CHR 0x22, CHR 0x27} = {}"
    for n
    by auto
  have a: "short_desc (replicate 150 CHR ''a'') = replicate 120 CHR ''a'' @ ''...''"
    using short_desc_excerpt [of "replicate 150 CHR ''a''", THEN conjunct2, THEN conjunct2,
        THEN mp, OF plain [of 150]]
    by simp
  have b: "short_desc (replicate 50 CHR ''a'') = replicate 50 CHR ''a''"
    using short_desc_excerpt [of "replicate 50 CHR ''a''", THEN conjunct2, THEN conjunct2,
        THEN mp, OF plain [of 50]]
    by simp
  have c: "short_desc (replicate 120 CHR ''a'') = replicate 120 CHR ''a''"
    using short_desc_excerpt [of "replicate 120 CHR ''a''", THEN conjunct2, THEN conjunct2,
        THEN mp, OF plain [of 120]]
    by simp
  from a b c show ?thesis
    by (intro conjI)
qed

section \<open>The loader\<close>

lemma from_dict_missing_id:
  "j_id d = None \<Longrightarrow> from_dict empty_str empty_list d = Inl (KeyError ''id'')"
  by (simp add: from_dict_def dict_item_def)

lemma from_dict_with_id:
  "j_id d = Some i \<Longrightarrow>
     from_dict empty_str empty_list d = Inr \<lparr>
       id' = i,
       title = (case j_title d of None \<Rightarrow> empty_str | Some v \<Rightarrow> v),
       description = (case j_description d of None \<Rightarrow> empty_str | Some v \<Rightarrow> v),
       organization_url = (case j_organization_url d of None \<Rightarrow> empty_str | Some v \<Rightarrow> v),
       location = (case j_location d of None \<Rightarrow> empty_str | Some v \<Rightarrow> v),
       timeframe = (case j_timeframe d of None \<Rightarrow> empty_str | Some v \<Rightarrow> v),
       requirements = (case j_requirements d of None \<Rightarrow> empty_list | Some v \<Rightarrow> v) \<rparr>"
  by (simp add: from_dict_def dict_item_def dict_get_def)

lemma from_dicts_failure:
  "r \<in> set raw \<Longrightarrow> from_dict [] [] r = Inl e \<Longrightarrow> \<exists>e'. from_dicts raw = Inl e'"
  by (induction raw) (auto split: sum.splits)

lemma from_dicts_error:
  "from_dicts raw = Inl e \<Longrightarrow> e = KeyError ''id''"
proof (induction raw)
  case Nil
  then show ?case by simp
next
  case (Cons r raw)
  show ?case
  proof (cases "j_id r")
    case None
    with Cons.prems show ?thesis
      by (simp add: from_dict_missing_id)
  next
    case (Some i)
    with Cons show ?thesis
      by (auto simp: from_dict_with_id split: sum.splits)
  qed
qed

lemma load_without_id:
  assumes "r \<in> set raw" and "j_id r = None"
  shows "load_opportunities path (Some raw) = Inl (KeyError ''id'')"
proof -
  from assms obtain e where "from_dicts raw = Inl e"
    using from_dicts_failure [of r raw "KeyError ''id''"] from_dict_missing_id [of r "[]" "[]"]
    by blast
  then show ?thesis
    using from_dicts_error [of raw e] by (simp add: load_opportunities_def)
qed

text \<open>
  C7. Whatever the values of a dict are, \<^verbatim>\<open>Opportunity.from_dict\<close> fails on a dict without
  the key \<open>id\<close>, with the \<^verbatim>\<open>KeyError\<close> of \<^verbatim>\<open>d["id"]\<close>, and on a dict with the key
  it gives the record whose \<open>id\<close> is that value and whose other fields are the values of
  their keys, with the empty string for each of the five text keys that is absent and the
  empty list for an absent \<open>requirements\<close>. A key that is present keeps its value. The
  load of a data file that holds an object without \<open>id\<close> fails with that error and gives
  no records, and the load of a file of one object with an \<open>id\<close> gives its record, with
  \<^verbatim>\<open>""\<close> and \<^verbatim>\<open>[]\<close> for what is absent.
\<close>

theorem from_dict_defaults:
  "(j_id d = None \<longrightarrow> from_dict empty_str empty_list d = Inl (KeyError ''id''))
   \<and> (\<forall>i. j_id d = Some i \<longrightarrow>
        from_dict empty_str empty_list d = Inr \<lparr>
          id' = i,
          title = (case j_title d of None \<Rightarrow> empty_str | Some v \<Rightarrow> v),
          description = (case j_description d of None \<Rightarrow> empty_str | Some v \<Rightarrow> v),
          organization_url =
            (case j_organization_url d of None \<Rightarrow> empty_str | Some v \<Rightarrow> v),
          location = (case j_location d of None \<Rightarrow> empty_str | Some v \<Rightarrow> v),
          timeframe = (case j_timeframe d of None \<Rightarrow> empty_str | Some v \<Rightarrow> v),
          requirements = (case j_requirements d of None \<Rightarrow> empty_list | Some v \<Rightarrow> v) \<rparr>)
   \<and> (r \<in> set raw \<and> j_id r = None \<longrightarrow>
        load_opportunities path (Some raw) = Inl (KeyError ''id''))
   \<and> (\<forall>i. j_id r = Some i \<longrightarrow>
        load_opportunities path (Some [r]) = Inr ([], [\<lparr>
          id' = i,
          title = (case j_title r of None \<Rightarrow> [] | Some v \<Rightarrow> v),
          description = (case j_description r of None \<Rightarrow> [] | Some v \<Rightarrow> v),
          organization_url = (case j_organization_url r of None \<Rightarrow> [] | Some v \<Rightarrow> v),
          location = (case j_location r of None \<Rightarrow> [] | Some v \<Rightarrow> v),
          timeframe = (case j_timeframe r of None \<Rightarrow> [] | Some v \<Rightarrow> v),
          requirements = (case j_requirements r of None \<Rightarrow> [] | Some v \<Rightarrow> v) \<rparr>]))"
proof -
  have "load_opportunities path (Some [r]) = Inr ([], [\<lparr>
      id' = i,
      title = (case j_title r of None \<Rightarrow> [] | Some v \<Rightarrow> v),
      description = (case j_description r of None \<Rightarrow> [] | Some v \<Rightarrow> v),
      organization_url = (case j_organization_url r of None \<Rightarrow> [] | Some v \<Rightarrow> v),
      location = (case j_location r of None \<Rightarrow> [] | Some v \<Rightarrow> v),
      timeframe = (case j_timeframe r of None \<Rightarrow> [] | Some v \<Rightarrow> v),
      requirements = (case j_requirements r of None \<Rightarrow> [] | Some v \<Rightarrow> v) \<rparr>])"
    if "j_id r = Some i" for i
    using that by (simp add: load_opportunities_def from_dict_with_id)
  then show ?thesis
    using from_dict_missing_id [of d empty_str empty_list]
      from_dict_with_id [of d _ empty_str empty_list] load_without_id [of r raw path]
    by blast
qed

theorem from_dict_defaults_witness:
  "from_dict (JString []) (JArray [])
      \<lparr>j_id = None, j_title = Some (JString ''Beach cleanup''), j_description = None,
        j_organization_url = None, j_location = None, j_timeframe = None,
        j_requirements = None\<rparr>
     = Inl (KeyError ''id'')
   \<and> from_dict (JString []) (JArray [])
      \<lparr>j_id = Some (JArray [JString ''x'']), j_title = Some JNull, j_description = None,
        j_organization_url = None, j_location = Some (JInt 7), j_timeframe = None,
        j_requirements = None\<rparr>
     = Inr \<lparr>id' = JArray [JString ''x''], title = JNull, description = JString [],
            organization_url = JString [], location = JInt 7, timeframe = JString [],
            requirements = JArray []\<rparr>
   \<and> load_opportunities ''data.json''
        (Some [\<lparr>j_id = Some ''a'', j_title = None, j_description = None,
                 j_organization_url = None, j_location = None, j_timeframe = None,
                 j_requirements = None\<rparr>,
               \<lparr>j_id = None, j_title = Some ''Beach cleanup'', j_description = None,
                 j_organization_url = None, j_location = None, j_timeframe = None,
                 j_requirements = None\<rparr>])
     = Inl (KeyError ''id'')
   \<and> load_opportunities ''data.json''
        (Some [\<lparr>j_id = Some ''b'', j_title = Some ''T'', j_description = None,
                 j_organization_url = Some ''U'', j_location = None, j_timeframe = None,
                 j_requirements = Some [''r1'', ''r2'']\<rparr>])
     = Inr ([], [\<lparr>id' = ''b'', title = ''T'', description = [], organization_url = ''U'',
                  location = [], timeframe = [], requirements = [''r1'', ''r2'']\<rparr>])"
proof -
  let ?bad = "\<lparr>j_id = None, j_title = Some (JString ''Beach cleanup''), j_description = None,
      j_organization_url = None, j_location = None, j_timeframe = None,
      j_requirements = None\<rparr>"
  let ?odd = "\<lparr>j_id = Some (JArray [JString ''x'']), j_title = Some JNull, j_description = None,
      j_organization_url = None, j_location = Some (JInt 7), j_timeframe = None,
      j_requirements = None\<rparr>"
  let ?a = "\<lparr>j_id = Some ''a'', j_title = None, j_description = None,
      j_organization_url = None, j_location = None, j_timeframe = None,
      j_requirements = None\<rparr>"
  let ?noid = "\<lparr>j_id = None, j_title = Some ''Beach cleanup'', j_description = None,
      j_organization_url = None, j_location = None, j_timeframe = None,
      j_requirements = None\<rparr>"
  let ?b = "\<lparr>j_id = Some ''b'', j_title = Some ''T'', j_description = None,
      j_organization_url = Some ''U'', j_location = None, j_timeframe = None,
      j_requirements = Some [''r1'', ''r2'']\<rparr>"
  have a: "from_dict (JString []) (JArray []) ?bad = Inl (KeyError ''id'')"
    using from_dict_defaults [of ?bad "JString []" "JArray []" ?a "[]" "[]", THEN conjunct1]
    by simp
  have b: "from_dict (JString []) (JArray []) ?odd
      = Inr \<lparr>id' = JArray [JString ''x''], title = JNull, description = JString [],
             organization_url = JString [], location = JInt 7, timeframe = JString [],
             requirements = JArray []\<rparr>"
    using from_dict_defaults [of ?odd "JString []" "JArray []" ?a "[]" "[]",
        THEN conjunct2, THEN conjunct1]
    by simp
  have c: "load_opportunities ''data.json'' (Some [?a, ?noid]) = Inl (KeyError ''id'')"
    using from_dict_defaults [of ?b "[]" "[]" ?noid "[?a, ?noid]" "''data.json''",
        THEN conjunct2, THEN conjunct2, THEN conjunct1]
    by simp
  have d: "load_opportunities ''data.json'' (Some [?b])
      = Inr ([], [\<lparr>id' = ''b'', title = ''T'', description = [], organization_url = ''U'',
                   location = [], timeframe = [], requirements = [''r1'', ''r2'']\<rparr>])"
    using from_dict_defaults [of ?b "[]" "[]" ?b "[]" "''data.json''",
        THEN conjunct2, THEN conjunct2, THEN conjunct2]
    by simp
  from a b c d show ?thesis
    by (intro conjI)
qed

section \<open>Reading back a printed page number\<close>












section \<open>The detail view and the way back\<close>

lemma app_loaded:
  "load_opportunities path file = Inr (messages, ops) \<Longrightarrow>
     app path file qp clicked =
       Inr ((script ops qp clicked)\<lparr> elements := messages @ elements (script ops qp clicked) \<rparr>)"
  by (simp add: app_def Let_def)

lemma script_detail:
  assumes "qp_get qp ''id'' None = Some sid" and "sid \<noteq> []"
  shows "script ops qp clicked =
     (detail_view ops sid (current_page (length ops) qp) qp clicked)\<lparr> elements :=
        [St_title ''Volunteer Hub'',
         St_write (''Find volunteering opportunities '' @ em_dash @
            '' click a card to view details.'')]
        @ elements (detail_view ops sid (current_page (length ops) qp) qp clicked) \<rparr>"
  using assms by (simp add: script_def Let_def)

lemma script_grid:
  assumes "qp_get qp ''id'' None = None \<or> qp_get qp ''id'' None = Some []"
  shows "script ops qp clicked =
     \<lparr> elements =
         [St_title ''Volunteer Hub'',
          St_write (''Find volunteering opportunities '' @ em_dash @
             '' click a card to view details.''),
          St_markdown (grid_markup (page_items ops (current_page (length ops) qp))
             (current_page (length ops) qp)) True,
          St_markdown (footer_markup (total_pages (length ops)) (current_page (length ops) qp))
             True],
       params = qp,
       rerun = False \<rparr>"
  using assms by (auto simp: script_def Let_def grid_view_def)




lemma page_items_subset: "set (page_items ops p) \<subseteq> set ops"
proof -
  have "set (take k (drop j ops)) \<subseteq> set ops" for k j
    using set_take_subset [of k "drop j ops"] set_drop_subset [of j ops] by blast
  then show ?thesis
    by (simp add: page_items_def py_slice_def Let_def)
qed

lemma find_member: "x \<in> set xs \<Longrightarrow> find (\<lambda>y. f y = f x) xs \<noteq> None"
  by (auto simp: find_None_iff)

text \<open>
  C8 at an empty id. The URL \<open>?id=\<close> gives the parameter \<open>id\<close> the empty string,
  which is the id of no record here. \<^verbatim>\<open>if selected_id:\<close> is false for it, so the run
  shows the grid: no not-found message and no button.
\<close>

theorem empty_id_shows_grid:
  "[] \<notin> set (map id' [\<lparr>id' = ''a'', title = ''t'', description = ''d'',
       organization_url = ''u'', location = ''l'', timeframe = ''f'', requirements = []\<rparr>])
   \<and> qp_get [(''id'', [])] ''id'' None = Some []
   \<and> St_error ''Opportunity not found.'' \<notin> set (elements (script
         [\<lparr>id' = ''a'', title = ''t'', description = ''d'',
           organization_url = ''u'', location = ''l'', timeframe = ''f'', requirements = []\<rparr>]
         [(''id'', [])] False))
   \<and> St_button ''Back to list'' \<notin> set (elements (script
         [\<lparr>id' = ''a'', title = ''t'', description = ''d'',
           organization_url = ''u'', location = ''l'', timeframe = ''f'', requirements = []\<rparr>]
         [(''id'', [])] False))"
proof -
  have g: "qp_get [(''id'', [])] ''id'' None = Some []"
    by (simp add: qp_get_def get_all_def)
  then show ?thesis
    by (simp add: script_grid)
qed

text \<open>
  C8. When the \<open>id\<close> parameter is a string that is not empty and is the id of no
  loaded record, the run raises nothing and shows, after the title and the introduction,
  the message \<open>Opportunity not found.\<close> and the button \<open>Back to list\<close>. A click on
  the button leaves the single parameter \<open>page\<close>, set to the current page, which lies
  between 1 and \<open>total_pages\<close>, and runs the script again.
\<close>

theorem unknown_id_not_found:
  assumes "load_opportunities path file = Inr (messages, ops)"
    and "qp_get qp ''id'' None = Some sid" and "sid \<noteq> []"
    and "find (\<lambda>x. id' x = sid) ops = None"
  shows "app path file qp clicked =
      Inr \<lparr> elements = messages @
               [St_title ''Volunteer Hub'',
                St_write (''Find volunteering opportunities '' @ em_dash @
                   '' click a card to view details.''),
                St_error ''Opportunity not found.'',
                St_button ''Back to list''],
             params = (if clicked then [(''page'', py_str (current_page (length ops) qp))] else qp),
             rerun = clicked \<rparr>
    \<and> 1 \<le> current_page (length ops) qp
    \<and> current_page (length ops) qp \<le> total_pages (length ops)"
proof -
  have "script ops qp clicked =
      \<lparr> elements =
          [St_title ''Volunteer Hub'',
           St_write (''Find volunteering opportunities '' @ em_dash @
              '' click a card to view details.''),
           St_error ''Opportunity not found.'',
           St_button ''Back to list''],
        params = (if clicked then [(''page'', py_str (current_page (length ops) qp))] else qp),
        rerun = clicked \<rparr>"
    using assms(2-4) by (simp add: script_detail detail_view_def back_button_def)
  then show ?thesis
    using app_loaded [OF assms(1), of qp clicked] current_page_range [of "length ops" qp]
    by simp
qed

theorem unknown_id_not_found_witness:
  "app ''data.json'' (Some [\<lparr>j_id = Some ''a'', j_title = None, j_description = None,
        j_organization_url = None, j_location = None, j_timeframe = None,
        j_requirements = None\<rparr>])
      [(''id'', ''zz''), (''page'', ''7'')] True =
    Inr \<lparr> elements =
            [St_title ''Volunteer Hub'',
             St_write (''Find volunteering opportunities '' @ em_dash @
                '' click a card to view details.''),
             St_error ''Opportunity not found.'',
             St_button ''Back to list''],
          params = [(''page'', ''1'')],
          rerun = True \<rparr>"
proof -
  let ?ops = "[\<lparr>id' = ''a'', title = [], description = [], organization_url = [],
      location = [], timeframe = [], requirements = []\<rparr>]"
  let ?qp = "[(''id'', ''zz''), (''page'', ''7'')]"
  have load: "load_opportunities ''data.json''
      (Some [\<lparr>j_id = Some ''a'', j_title = None, j_description = None,
        j_organization_url = None, j_location = None, j_timeframe = None,
        j_requirements = None\<rparr>]) = Inr ([], ?ops)"
    by (simp add: load_opportunities_def from_dict_def dict_item_def dict_get_def)
  have get: "qp_get ?qp ''id'' None = Some ''zz''"
    by (simp add: qp_get_def get_all_def)
  have none: "find (\<lambda>x. id' x = ''zz'') ?ops = None"
    by simp
  have "qp_get ?qp ''page'' None = Some ''7''" and "py_int ''7'' = Inr 7"
    by (simp_all add: qp_get_def get_all_def py_int_eval)
  then have "current_page (length ?ops) ?qp = 1"
    by (simp add: current_page_def requested_page_def parse_page_def clamp_page_def
        total_pages_div)
  moreover have "py_str 1 = ''1''"
    by code_simp
  ultimately show ?thesis
    using unknown_id_not_found [OF load get _ none, of True] by simp
qed

section \<open>The cards of the grid\<close>

lemma script_grid_cards:
  assumes "qp_get qp ''id'' None = None \<or> qp_get qp ''id'' None = Some []"
  shows "elements (script ops qp clicked) =
     [St_title ''Volunteer Hub'',
      St_write (''Find volunteering opportunities '' @ em_dash @
         '' click a card to view details.''),
      St_markdown (css @ ''<div class='vol-grid'>''
         @ concat (map (card (current_page (length ops) qp))
             (page_items ops (current_page (length ops) qp)))
         @ ''</div>'') True,
      St_markdown (footer_markup (total_pages (length ops)) (current_page (length ops) qp))
         True]"
  by (simp add: script_grid [OF assms] grid_markup_def)

text \<open>
  C6. When the script shows the grid, the markup it emits is the style sheet and, between
  the tags of the grid, one card for each record of the current page, in order. In a card
  the title, the location and the time frame are passed through \<^verbatim>\<open>html.escape\<close>, and so
  is the description after it has been cut to its first 120 characters. Escaped text holds
  no angle bracket and no quote, and displays as the text that was escaped; so the escaped
  excerpt displays exactly the first 120 characters of the description.
\<close>

theorem card_fields_escaped:
  assumes "qp_get qp ''id'' None = None \<or> qp_get qp ''id'' None = Some []"
  shows "elements (script ops qp clicked) =
     [St_title ''Volunteer Hub'',
      St_write (''Find volunteering opportunities '' @ em_dash @
         '' click a card to view details.''),
      St_markdown (css @ ''<div class='vol-grid'>''
         @ concat (map
             (\<lambda>opp.
                ''<a class='vol-card' href='?id='' @ id' opp @ ''&page=''
                  @ py_str (current_page (length ops) qp) @ '''>''
                @ ''<h3>'' @ html_escape (title opp) @ ''</h3>''
                @ ''<p>'' @ html_escape (take 120 (description opp))
                  @ (if 120 < length (description opp) then ''...'' else []) @ ''</p>''
                @ ''<div class='vol-meta'>'' @ html_escape (location opp) @ '' '' @ bullet
                  @ '' '' @ html_escape (timeframe opp) @ ''</div>''
                @ ''</a>'')
             (page_items ops (current_page (length ops) qp)))
         @ ''</div>'') True,
      St_markdown (footer_markup (total_pages (length ops)) (current_page (length ops) qp))
         True]
   \<and> (\<forall>s. set (html_escape s) \<inter> {CHR ''<'', CHR ''>'', CHR 0x22, CHR 0x27} = {}
          \<and> spec_display (html_escape s) = s)
   \<and> (\<forall>d. spec_display (html_escape (take 120 d)) = take 120 d)"
proof -
  have "card page = (\<lambda>opp.
      ''<a class='vol-card' href='?id='' @ id' opp @ ''&page='' @ py_str page @ '''>''
      @ ''<h3>'' @ html_escape (title opp) @ ''</h3>''
      @ ''<p>'' @ html_escape (take 120 (description opp))
        @ (if 120 < length (description opp) then ''...'' else []) @ ''</p>''
      @ ''<div class='vol-meta'>'' @ html_escape (location opp) @ '' '' @ bullet
        @ '' '' @ html_escape (timeframe opp) @ ''</div>''
      @ ''</a>'')" for page
    by (rule ext) (simp add: card_def short_desc_def slice_prefix)
  then show ?thesis
    using script_grid_cards [OF assms, of ops clicked]
    by (simp add: html_escape_no_markup spec_display_escape)
qed

theorem card_fields_escaped_witness:
  "elements (script
      [\<lparr>id' = ''a'', title = ''<b>Tom & Co</b>'', description = ''d'',
        organization_url = ''u'', location = ''l'', timeframe = ''f'', requirements = []\<rparr>]
      [] False) =
     [St_title ''Volunteer Hub'',
      St_write (''Find volunteering opportunities '' @ em_dash @
         '' click a card to view details.''),
      St_markdown (css @ ''<div class='vol-grid'>''
         @ ''<a class='vol-card' href='?id=a&page=1'>''
         @ ''<h3>&lt;b&gt;Tom &amp; Co&lt;/b&gt;</h3>''
         @ ''<p>d</p>''
         @ ''<div class='vol-meta'>l '' @ bullet @ '' f</div>''
         @ ''</a>''
         @ ''</div>'') True,
      St_markdown (footer_markup 1 1) True]
   \<and> spec_display ''&lt;b&gt;Tom &amp; Co&lt;/b&gt;'' = ''<b>Tom & Co</b>''"
proof -
  let ?A = "\<lparr>id' = ''a'', title = ''<b>Tom & Co</b>'', description = ''d'',
      organization_url = ''u'', location = ''l'', timeframe = ''f'', requirements = []\<rparr>"
  have g: "qp_get [] ''id'' None = None \<or> qp_get [] ''id'' None = Some []"
    by (simp add: qp_get_def get_all_def get_last_def)
  have tp: "total_pages (length [?A]) = 1"
    by (simp add: total_pages_div)
  have cp: "current_page (length [?A]) [] = 1"
    by (simp add: current_page_def requested_page_def parse_page_def clamp_page_def
        total_pages_div qp_get_def get_all_def get_last_def)
  have items: "page_items [?A] 1 = [?A]"
    by (simp add: page_items_take_drop)
  have p: "py_str 1 = ''1''"
    by code_simp
  have e: "html_escape ''<b>Tom & Co</b>'' = ''&lt;b&gt;Tom &amp; Co&lt;/b&gt;''"
    "html_escape ''d'' = ''d''" "html_escape ''l'' = ''l''" "html_escape ''f'' = ''f''"
    by (simp_all add: html_escape_def replace_char_def)
  from card_fields_escaped [OF g, of "[?A]" False]
  have "elements (script [?A] [] False) =
     [St_title ''Volunteer Hub'',
      St_write (''Find volunteering opportunities '' @ em_dash @
         '' click a card to view details.''),
      St_markdown (css @ ''<div class='vol-grid'>''
         @ ''<a class='vol-card' href='?id=a&page=1'>''
         @ ''<h3>&lt;b&gt;Tom &amp; Co&lt;/b&gt;</h3>''
         @ ''<p>d</p>''
         @ ''<div class='vol-meta'>l '' @ bullet @ '' f</div>''
         @ ''</a>''
         @ ''</div>'') True,
      St_markdown (footer_markup 1 1) True]"
    and "spec_display (html_escape ''<b>Tom & Co</b>'') = ''<b>Tom & Co</b>''"
    unfolding cp tp items by (simp_all add: p e)
  then show ?thesis
    by (simp add: e)
qed

text \<open>
  C10. When the script shows the grid, each card of the markup it emits, one for each
  record of the current page and in order, begins with the anchor whose \<open>href\<close> is
  \<open>?id=\<close>, the id of the record as it is stored, \<open>&page=\<close> and the current page
  number. Nothing is applied to the id: where it holds an angle bracket or a quote it is
  not what \<^verbatim>\<open>html.escape\<close> writes for it.
\<close>

theorem card_href_raw:
  assumes "qp_get qp ''id'' None = None \<or> qp_get qp ''id'' None = Some []"
  shows "(\<exists>body. elements (script ops qp clicked) =
       [St_title ''Volunteer Hub'',
        St_write (''Find volunteering opportunities '' @ em_dash @
           '' click a card to view details.''),
        St_markdown (css @ ''<div class='vol-grid'>''
           @ concat (map
               (\<lambda>opp.
                  ''<a class='vol-card' href='?id='' @ id' opp @ ''&page=''
                    @ py_str (current_page (length ops) qp) @ '''>'' @ body opp)
               (page_items ops (current_page (length ops) qp)))
           @ ''</div>'') True,
        St_markdown (footer_markup (total_pages (length ops)) (current_page (length ops) qp))
           True])
   \<and> (\<forall>opp :: Opportunity.
          set (id' opp) \<inter> {CHR ''<'', CHR ''>'', CHR 0x22, CHR 0x27} \<noteq> {}
          \<longrightarrow> html_escape (id' opp) \<noteq> id' opp)"
proof -
  let ?body = "\<lambda>opp. ''<h3>'' @ html_escape (title opp) @ ''</h3>''
      @ ''<p>'' @ short_desc (description opp) @ ''</p>''
      @ ''<div class='vol-meta'>'' @ html_escape (location opp) @ '' '' @ bullet @ '' ''
      @ html_escape (timeframe opp) @ ''</div>'' @ ''</a>''"
  have "card page = (\<lambda>opp.
      ''<a class='vol-card' href='?id='' @ id' opp @ ''&page='' @ py_str page @ '''>''
      @ ?body opp)" for page
    by (rule ext) (simp add: card_def)
  then have a: "\<exists>body. elements (script ops qp clicked) =
       [St_title ''Volunteer Hub'',
        St_write (''Find volunteering opportunities '' @ em_dash @
           '' click a card to view details.''),
        St_markdown (css @ ''<div class='vol-grid'>''
           @ concat (map
               (\<lambda>opp.
                  ''<a class='vol-card' href='?id='' @ id' opp @ ''&page=''
                    @ py_str (current_page (length ops) qp) @ '''>'' @ body opp)
               (page_items ops (current_page (length ops) qp)))
           @ ''</div>'') True,
        St_markdown (footer_markup (total_pages (length ops)) (current_page (length ops) qp))
           True]"
    using script_grid_cards [OF assms, of ops clicked]
    by (intro exI [of _ ?body]) simp
  have "html_escape (id' opp) \<noteq> id' opp"
    if "set (id' opp) \<inter> {CHR ''<'', CHR ''>'', CHR 0x22, CHR 0x27} \<noteq> {}"
    for opp :: Opportunity
    using that html_escape_no_markup [of "id' opp"] by auto
  then have b: "\<forall>opp :: Opportunity.
      set (id' opp) \<inter> {CHR ''<'', CHR ''>'', CHR 0x22, CHR 0x27} \<noteq> {}
        \<longrightarrow> html_escape (id' opp) \<noteq> id' opp"
    by blast
  from a b show ?thesis
    by (rule conjI)
qed

theorem card_href_raw_witness:
  "(\<exists>body. elements (script
        (replicate 10 \<lparr>id' = ''x'y<z'', title = ''t'', description = ''d'',
           organization_url = ''u'', location = ''l'', timeframe = ''f'', requirements = []\<rparr>)
        [(''page'', ''2'')] False) =
       [St_title ''Volunteer Hub'',
        St_write (''Find volunteering opportunities '' @ em_dash @
           '' click a card to view details.''),
        St_markdown (css @ ''<div class='vol-grid'>''
           @ ''<a class='vol-card' href='?id=x'y<z&page=2'>'' @ body
           @ ''</div>'') True,
        St_markdown (footer_markup 2 2) True])
   \<and> html_escape ''x'y<z'' \<noteq> ''x'y<z''"
proof -
  let ?A = "\<lparr>id' = ''x'y<z'', title = ''t'', description = ''d'',
      organization_url = ''u'', location = ''l'', timeframe = ''f'', requirements = []\<rparr>
      :: Opportunity"
  let ?qp = "[(''page'', ''2'')]"
  have g: "qp_get ?qp ''id'' None = None \<or> qp_get ?qp ''id'' None = Some []"
    by (simp add: qp_get_def get_all_def get_last_def)
  have tp: "total_pages (length (replicate 10 ?A)) = 2"
    by (simp add: total_pages_div)
  have "qp_get ?qp ''page'' None = Some ''2''" and "py_int ''2'' = Inr 2"
    by (simp_all add: qp_get_def get_all_def py_int_eval)
  then have cp: "current_page (length (replicate 10 ?A)) ?qp = 2"
    by (simp add: current_page_def requested_page_def parse_page_def clamp_page_def
        total_pages_div)
  have items: "page_items (replicate 10 ?A) 2 = [?A]"
    by (simp add: page_items_take_drop)
  have p: "py_str 2 = ''2''"
    by code_simp
  have "\<exists>body. elements (script (replicate 10 ?A) ?qp False) =
       [St_title ''Volunteer Hub'',
        St_write (''Find volunteering opportunities '' @ em_dash @
           '' click a card to view details.''),
        St_markdown (css @ ''<div class='vol-grid'>''
           @ concat (map
               (\<lambda>opp.
                  ''<a class='vol-card' href='?id='' @ id' opp @ ''&page=''
                    @ ''2'' @ '''>'' @ body opp)
               [?A])
           @ ''</div>'') True,
        St_markdown (footer_markup 2 2) True]"
    using card_href_raw [OF g, of "replicate 10 ?A" False, THEN conjunct1]
    by (simp only: cp tp items p)
  then obtain body where "elements (script (replicate 10 ?A) ?qp False) =
       [St_title ''Volunteer Hub'',
        St_write (''Find volunteering opportunities '' @ em_dash @
           '' click a card to view details.''),
        St_markdown (css @ ''<div class='vol-grid'>''
           @ concat (map
               (\<lambda>opp.
                  ''<a class='vol-card' href='?id='' @ id' opp @ ''&page=''
                    @ ''2'' @ '''>'' @ body opp)
               [?A])
           @ ''</div>'') True,
        St_markdown (footer_markup 2 2) True]"
    by (rule exE)
  then have a: "elements (script (replicate 10 ?A) ?qp False) =
       [St_title ''Volunteer Hub'',
        St_write (''Find volunteering opportunities '' @ em_dash @
           '' click a card to view details.''),
        St_markdown (css @ ''<div class='vol-grid'>''
           @ ''<a class='vol-card' href='?id=x'y<z&page=2'>'' @ body ?A
           @ ''</div>'') True,
        St_markdown (footer_markup 2 2) True]"
    by simp
  have "set (id' ?A) \<inter> {CHR ''<'', CHR ''>'', CHR 0x22, CHR 0x27} \<noteq> {}"
    by simp
  with card_href_raw [OF g, of "replicate 10 ?A" False, THEN conjunct2, THEN spec, of ?A]
  have b: "html_escape ''x'y<z'' \<noteq> ''x'y<z''"
    by simp
  from a have "\<exists>body. elements (script (replicate 10 ?A) ?qp False) =
       [St_title ''Volunteer Hub'',
        St_write (''Find volunteering opportunities '' @ em_dash @
           '' click a card to view details.''),
        St_markdown (css @ ''<div class='vol-grid'>''
           @ ''<a class='vol-card' href='?id=x'y<z&page=2'>'' @ body
           @ ''</div>'') True,
        St_markdown (footer_markup 2 2) True]"
    by (rule exI [of _ "body ?A"])
  with b show ?thesis
    by (rule conjI [rotated])
qed

section \<open>Selecting a card and going back\<close>




lemma split_on_not_empty: "split_on sep s \<noteq> []"
  by (induction s) (auto split: list.splits)









end
